theory Spec2Isabelle
  imports Complex_Main
begin

section \<open>JavaScript values used by the state module\<close>

text \<open>
  A JavaScript string is a sequence of UTF-16 code units; the names of the roulette
  (Japanese text, full-width spaces) do not fit 8-bit characters, so a string is modelled
  as the list of its code units.  \<open>ascii\<close> reads an ASCII literal as such a string.
\<close>

type_synonym jsstring = "nat list"

definition ascii :: "string \<Rightarrow> jsstring" where
  "ascii s = map of_char s"

text \<open>
  A JavaScript number is \<open>NaN\<close>, an infinity or a finite value.  The state module only
  compares numbers with the literals \<open>0.1\<close>, \<open>10\<close> and \<open>1\<close> and never computes with
  them, so a finite number is modelled by the real it denotes and comparisons are exact.
  The literal \<open>0.1\<close> is read as the real \<open>1 / 10\<close>: no double lies strictly between
  the two, so a double is below the one exactly when it is below the other.
\<close>

datatype jsnum = NaN | NegInf | Fin real | PosInf

text \<open>The relational operator \<open><\<close> on numbers: every comparison with \<open>NaN\<close> is false.\<close>

fun js_lt :: "jsnum \<Rightarrow> jsnum \<Rightarrow> bool" where
  "js_lt NaN _ = False"
| "js_lt _ NaN = False"
| "js_lt NegInf NegInf = False"
| "js_lt NegInf _ = True"
| "js_lt (Fin x) NegInf = False"
| "js_lt (Fin x) (Fin y) = (x < y)"
| "js_lt (Fin x) PosInf = True"
| "js_lt PosInf _ = False"

definition js_gt :: "jsnum \<Rightarrow> jsnum \<Rightarrow> bool" where
  "js_gt a b = js_lt b a"

definition isNaN :: "jsnum \<Rightarrow> bool" where
  "isNaN n = (n = NaN)"

text \<open>
  The values that reach the state module: \<open>undefined\<close>, booleans, numbers, strings, and
  \<open>Inherited k\<close>, the value that a property read finds on \<open>Object.prototype\<close> when
  the object has no own property \<open>k\<close> (see \<open>get_prop\<close> below): a built-in function, or
  \<open>Object.prototype\<close> itself for \<open>__proto__\<close>.  All of them are objects, hence truthy
  and not of type number.
\<close>

datatype jsval =
    Undefined
  | Boolean bool
  | Number jsnum
  | String jsstring
  | Inherited jsstring

text \<open>Truthiness, as \<open>if (v)\<close> and \<open>!!v\<close> decide it.\<close>

fun truthy :: "jsval \<Rightarrow> bool" where
  "truthy Undefined = False"
| "truthy (Boolean b) = b"
| "truthy (Number NaN) = False"
| "truthy (Number (Fin x)) = (x \<noteq> 0)"
| "truthy (Number _) = True"
| "truthy (String s) = (s \<noteq> [])"
| "truthy (Inherited k) = True"

section \<open>normalizeWeightValue\<close>

text \<open>
  \<^verbatim>\<open>let num = typeof value === 'number' ? value : parseFloat(String(value));\<close>

  \<open>parseFloat\<close> and \<open>String\<close> are built-ins of the host, not code of the repository:
  the parameter \<open>pf\<close> stands for \<open>\<lambda>v. parseFloat(String(v))\<close>, and every theorem below
  holds for every such function.
\<close>

definition toNum :: "(jsval \<Rightarrow> jsnum) \<Rightarrow> jsval \<Rightarrow> jsnum" where
  "toNum pf v = (case v of Number n \<Rightarrow> n | _ \<Rightarrow> pf v)"

definition WEIGHT_MIN :: real where
  "WEIGHT_MIN = 1 / 10"

definition WEIGHT_MAX :: real where
  "WEIGHT_MAX = 10"

definition normalizeWeightValue :: "(jsval \<Rightarrow> jsnum) \<Rightarrow> jsval \<Rightarrow> jsnum" where
  "normalizeWeightValue pf v =
     (let num = toNum pf v;
          num = (if isNaN num then Fin 1 else num);
          num = (if js_lt num (Fin WEIGHT_MIN) then Fin WEIGHT_MIN else num);
          num = (if js_gt num (Fin WEIGHT_MAX) then Fin WEIGHT_MAX else num)
      in num)"

text \<open>A number lies in the band when it is finite and between the two bounds.\<close>

definition inBand :: "jsnum \<Rightarrow> bool" where
  "inBand n = (case n of Fin x \<Rightarrow> WEIGHT_MIN \<le> x \<and> x \<le> WEIGHT_MAX | _ \<Rightarrow> False)"

section \<open>Objects used as dictionaries\<close>

text \<open>
  \<open>state.on\<close> and \<open>state.weight\<close> are ordinary objects (\<open>{}\<close>, \<open>Object.fromEntries\<close>)
  used as dictionaries, so their prototype is \<open>Object.prototype\<close>.  An object is modelled
  by the map of its own properties.  A read \<open>obj[k]\<close> of a key that is not an own property
  finds the member of \<open>Object.prototype\<close> of that name, when there is one.
\<close>

type_synonym jsobj = "jsstring \<rightharpoonup> jsval"

definition PROTO :: jsstring where
  "PROTO = ascii ''__proto__''"

definition objectPrototypeKeys :: "jsstring list" where
  "objectPrototypeKeys = map ascii
     [''constructor'', ''hasOwnProperty'', ''isPrototypeOf'', ''propertyIsEnumerable'',
      ''toLocaleString'', ''toString'', ''valueOf'', ''__proto__'',
      ''__defineGetter__'', ''__defineSetter__'', ''__lookupGetter__'', ''__lookupSetter__'']"

definition get_prop :: "jsobj \<Rightarrow> jsstring \<Rightarrow> jsval" where
  "get_prop obj k =
     (case obj k of
        Some v \<Rightarrow> v
      | None \<Rightarrow> if k \<in> set objectPrototypeKeys then Inherited k else Undefined)"

text \<open>
  An assignment \<open>obj[k] = v\<close> of a primitive value (the module assigns booleans and
  numbers only).  It creates or updates the own property \<open>k\<close>, with one exception:
  when \<open>k\<close> is \<open>__proto__\<close> and the object has no own property of that name, the
  assignment reaches the accessor of \<open>Object.prototype\<close>, whose setter ignores a value
  that is neither an object nor \<open>null\<close>.
\<close>

definition set_prop :: "jsobj \<Rightarrow> jsstring \<Rightarrow> jsval \<Rightarrow> jsobj" where
  "set_prop obj k v = (if k = PROTO \<and> obj k = None then obj else obj(k \<mapsto> v))"

text \<open>
  \<open>Object.fromEntries\<close> defines an own data property for each pair, in order (a later
  pair with the same key replaces an earlier one), whatever the key is.
\<close>

definition fromEntries :: "(jsstring \<times> jsval) list \<Rightarrow> jsobj" where
  "fromEntries ps = fold (\<lambda>(k, v) obj. obj(k \<mapsto> v)) ps Map.empty"

section \<open>The shared state\<close>

record state =
  names :: "jsstring list"
  on :: jsobj
  weight :: jsobj

record entry =
  entry_name :: jsstring
  entry_weight :: jsnum

text \<open>
  \<open>String.prototype.trim\<close> removes the code units of \<open>WhiteSpace\<close> and
  \<open>LineTerminator\<close> from both ends.
\<close>

definition isWhiteSpace :: "nat \<Rightarrow> bool" where
  "isWhiteSpace c =
     (c \<in> {0x9, 0xA, 0xB, 0xC, 0xD, 0x20, 0xA0, 0x1680, 0x2028, 0x2029, 0x202F, 0x205F,
            0x3000, 0xFEFF} \<or> (0x2000 \<le> c \<and> c \<le> 0x200A))"

definition trim :: "jsstring \<Rightarrow> jsstring" where
  "trim s = rev (dropWhile isWhiteSpace (rev (dropWhile isWhiteSpace s)))"

text \<open>
  \<^verbatim>\<open>export function addCharacter(name, weight = 1)\<close>

  \<open>name\<close> may be \<open>null\<close> or \<open>undefined\<close> (\<open>None\<close>), which \<open>name ?? ''\<close> reads as
  the empty string; the default of \<open>weight\<close> applies when the argument is \<open>undefined\<close>.
  The result is the returned boolean and the state after the call.
\<close>

definition addCharacter ::
  "(jsval \<Rightarrow> jsnum) \<Rightarrow> jsstring option \<Rightarrow> jsval \<Rightarrow> state \<Rightarrow> bool \<times> state" where
  "addCharacter pf name w st =
     (let trimmed = trim (case name of None \<Rightarrow> [] | Some n \<Rightarrow> n) in
      if trimmed = [] then (False, st)
      else
        let normalized = normalizeWeightValue pf (if w = Undefined then Number (Fin 1) else w)
        in (True,
            st\<lparr>names := names st @ [trimmed],
               on := set_prop (on st) trimmed (Boolean True),
               weight := set_prop (weight st) trimmed (Number normalized)\<rparr>))"

text \<open>
  \<^verbatim>\<open>for (const name of state.names) { if (state.on[name]) entries.push(...) }\<close>

  The loop of \<open>getActiveEntries\<close>, with the array \<open>entries\<close> as accumulator.
\<close>

fun activeLoop :: "(jsval \<Rightarrow> jsnum) \<Rightarrow> state \<Rightarrow> jsstring list \<Rightarrow> entry list \<Rightarrow> entry list" where
  "activeLoop pf st [] entries = entries"
| "activeLoop pf st (name # rest) entries =
     (if truthy (get_prop (on st) name)
      then activeLoop pf st rest
             (entries @ [\<lparr>entry_name = name,
                          entry_weight = normalizeWeightValue pf (get_prop (weight st) name)\<rparr>])
      else activeLoop pf st rest entries)"

text \<open>The result is the returned array and the state after the call.\<close>

definition getActiveEntries :: "(jsval \<Rightarrow> jsnum) \<Rightarrow> state \<Rightarrow> entry list \<times> state" where
  "getActiveEntries pf st = (activeLoop pf st (names st) [], st)"

text \<open>
  \<^verbatim>\<open>if (state.names.includes(name)) { state.on[name] = !!active; }\<close>
\<close>

definition setActive :: "jsstring \<Rightarrow> jsval \<Rightarrow> state \<Rightarrow> state" where
  "setActive name active st =
     (if name \<in> set (names st)
      then st\<lparr>on := set_prop (on st) name (Boolean (truthy active))\<rparr>
      else st)"

text \<open>
  \<open>removeCharacter\<close>: \<open>splice\<close> removes the first occurrence of the name, the one
  that \<open>indexOf\<close> finds, and \<open>delete\<close> removes the own property, if there is one.
  The result is the returned boolean and the state after the call.
\<close>

definition removeCharacter :: "jsstring \<Rightarrow> state \<Rightarrow> bool \<times> state" where
  "removeCharacter name st =
     (if name \<notin> set (names st) then (False, st)
      else (True,
            st\<lparr>names := remove1 name (names st),
               on := (on st)(name := None),
               weight := (weight st)(name := None)\<rparr>))"

section \<open>Presets\<close>

text \<open>
  The table \<open>PRESETS\<close>, in the order of its source text, which is the order of
  \<open>Object.entries\<close>.  Keys and names are given by their UTF-16 code units.
\<close>

definition KEY_OMG :: jsstring where
  "KEY_OMG = [0x4F, 0x4D, 0x47]"

definition LIST_OMG :: "jsstring list" where
  "LIST_OMG =
    [[0x30C6, 0x30E0, 0x30B8, 0x30F3],
     [0x30D0, 0x30A4, 0x30D1, 0xFF0D, 0x2161],
     [0x30C9, 0x30EB, 0x30AB, 0x30B9],
     [0x30D9, 0x30EB, 0x30B0, 0x30C9, 0x30EB],
     [0x30D0, 0x30EB, 0x30D0, 0x30B9, 0x30D0, 0x30A6],
     [0x30A2, 0x30D5, 0x30A1, 0x30FC, 0x30E0, 0x30C9],
     [0x30D5, 0x30A7, 0x30A4],
     [0x30E9, 0x30A4, 0x30C7, 0x30F3]]"

definition KEY_ORATAN :: jsstring where
  "KEY_ORATAN = [0x30AA, 0x30E9, 0x30BF, 0x30F3]"

definition LIST_ORATAN :: "jsstring list" where
  "LIST_ORATAN =
    [[0x30E9, 0x30A4, 0x30C7, 0x30F3],
     [0x30B7, 0x30E5, 0x30BF, 0x30A4, 0x30F3],
     [0x30B0, 0x30EA, 0x30B9],
     [0x30C6, 0x30E0, 0x30B8, 0x30F3],
     [0x30C6, 0x30F3, 0x30D1, 0x30C1],
     [0x30D0, 0x30EB],
     [0x30A8, 0x30F3, 0x30B8, 0x30A7],
     [0x30A2, 0x30B8, 0x30E0],
     [0x30B9, 0x307A],
     [0x30B3, 0x30DE, 0x30F3, 0x30C0, 0x30FC],
     [0x30D0, 0x30C8, 0x30E9, 0x30FC],
     [0x30B9, 0x30C8, 0x30E9, 0x30A4, 0x30AB, 0x30FC],
     [0x30B5, 0x30A4, 0x30D5, 0x30A1, 0x30FC],
     [0x30D5, 0x30A7, 0x30A4],
     [0x30C9, 0x30EB]]"

definition KEY_FORCE :: jsstring where
  "KEY_FORCE = [0x30D5, 0x30A9, 0x30FC, 0x30B9]"

definition LIST_FORCE :: "jsstring list" where
  "LIST_FORCE =
    [[0x54, 0x45, 0x4D, 0x4A, 0x49, 0x4E, 0x7CFB, 0x5217],
     [0x52, 0x41, 0x49, 0x44, 0x45, 0x4E, 0x7CFB, 0x5217],
     [0x56, 0x4F, 0x58, 0x7CFB, 0x5217],
     [0x42, 0x41, 0x4C, 0x7CFB, 0x5217],
     [0x41, 0x50, 0x48, 0x41, 0x52, 0x4D, 0x44, 0x20, 0x4A, 0x7CFB, 0x5217],
     [0x41, 0x50, 0x48, 0x41, 0x52, 0x4D, 0x44, 0x20, 0x54, 0x7CFB, 0x5217],
     [0x4D, 0x59, 0x5A, 0x52, 0x7CFB, 0x5217],
     [0x53, 0x50, 0x45, 0x43, 0x49, 0x4E, 0x45, 0x46, 0x46, 0x7CFB, 0x5217],
     [0x666F, 0x6E05, 0x7CFB, 0x5217],
     [0x46, 0x45, 0x49, 0x2D, 0x59, 0x45, 0x4E, 0x7CFB, 0x5217],
     [0x41, 0x4E, 0x47, 0x45, 0x4C, 0x41, 0x4E, 0x7CFB, 0x5217],
     [0x47, 0x55, 0x41, 0x52, 0x41, 0x59, 0x41, 0x4B, 0x48, 0x41]]"

definition KEY_KINSHO_VO :: jsstring where
  "KEY_KINSHO_VO = [0x7981, 0x66F8, 0x56, 0x4F]"

definition LIST_KINSHO_VO :: "jsstring list" where
  "LIST_KINSHO_VO =
    [[0x30C6, 0x30E0, 0x30B8, 0x30F3],
     [0x30D0, 0x30EB, 0x30EB, 0x30EB, 0x30FC, 0x30F3],
     [0x30E9, 0x30A4, 0x30C7, 0x30F3],
     [0x30B9, 0x30DA, 0x30B7, 0x30CD, 0x30D5],
     [0x30D5, 0x30A7, 0x30A4, 0x30FB, 0x30A4, 0x30A7, 0x30F3],
     [0x30A8, 0x30F3, 0x30B8, 0x30A7, 0x30E9, 0x30F3],
     [0x30B0, 0x30EA, 0x30B9, 0x30DC, 0x30C3, 0x30AF],
     [0x30A2, 0x30D5, 0x30A1, 0x30FC, 0x30E0, 0x30C9, 0x53],
     [0x30A2, 0x30D5, 0x30A1, 0x30FC, 0x30E0, 0x30C9, 0x42],
     [0x30A2, 0x30D5, 0x30A1, 0x30FC, 0x30E0, 0x30C9, 0x43],
     [0x30C9, 0x30EB, 0x30C9, 0x30EC, 0x30A4],
     [0x30B5, 0x30A4, 0x30D5, 0x30A1, 0x30FC],
     [0x30D0, 0x30EB, 0x30D0, 0x30C9, 0x30B9],
     [0x30D6, 0x30EB, 0x30FC, 0x30B9, 0x30C8, 0x30FC, 0x30AB, 0x30FC]]"

definition PRESETS :: "(jsstring \<times> jsstring list) list" where
  "PRESETS =
    [(KEY_OMG, LIST_OMG),
     (KEY_ORATAN, LIST_ORATAN),
     (KEY_FORCE, LIST_FORCE),
     (KEY_KINSHO_VO, LIST_KINSHO_VO)]"

text \<open>
  \<^verbatim>\<open>const list = PRESETS[key]; if (!Array.isArray(list)) return false;\<close>

  A key that is not an own property of \<open>PRESETS\<close> reads \<open>undefined\<close> or a member of
  \<open>Object.prototype\<close>; neither is an array.
\<close>

definition applyPreset :: "jsstring \<Rightarrow> state \<Rightarrow> bool \<times> state" where
  "applyPreset key st =
     (case map_of PRESETS key of
        None \<Rightarrow> (False, st)
      | Some list \<Rightarrow>
          (let st1 = st\<lparr>names := list\<rparr>;
               st2 = st1\<lparr>on := fromEntries (map (\<lambda>name. (name, Boolean True)) (names st1))\<rparr>;
               st3 = st2\<lparr>weight := fromEntries (map (\<lambda>name. (name, Number (Fin 1))) (names st2))\<rparr>
           in (True, st3)))"

text \<open>
  \<^verbatim>\<open>for (let i = 0; i < list.length; i += 1) if (list[i] !== state.names[i]) ...\<close>

  The first inner loop of \<open>findMatchingPresetKey\<close>, from index \<open>i\<close> on; a read past the
  end of \<open>state.names\<close> is \<open>undefined\<close>, which differs from every string.
\<close>

function namesMatch :: "jsstring list \<Rightarrow> jsstring list \<Rightarrow> nat \<Rightarrow> bool" where
  "namesMatch list ns i =
     (if i < length list
      then (if i < length ns \<and> list ! i = ns ! i then namesMatch list ns (i + 1) else False)
      else True)"
  by pat_completeness auto
termination
  by (relation "measure (\<lambda>(list, ns, i). length list - i)") auto

declare namesMatch.simps [simp del]

text \<open>
  \<^verbatim>\<open>for (const name of list) { if (!state.on[name]) ...; if (weight !== 1) ... }\<close>
\<close>

fun allOnUnit :: "(jsval \<Rightarrow> jsnum) \<Rightarrow> state \<Rightarrow> jsstring list \<Rightarrow> bool" where
  "allOnUnit pf st [] = True"
| "allOnUnit pf st (name # rest) =
     (if \<not> truthy (get_prop (on st) name) then False
      else if normalizeWeightValue pf (get_prop (weight st) name) \<noteq> Fin 1 then False
      else allOnUnit pf st rest)"

text \<open>The outer loop over \<open>Object.entries(PRESETS)\<close>; \<open>None\<close> is \<open>null\<close>.\<close>

fun findLoop ::
  "(jsval \<Rightarrow> jsnum) \<Rightarrow> state \<Rightarrow> (jsstring \<times> jsstring list) list \<Rightarrow> jsstring option" where
  "findLoop pf st [] = None"
| "findLoop pf st ((key, list) # rest) =
     (if length list \<noteq> length (names st) then findLoop pf st rest
      else if \<not> namesMatch list (names st) 0 then findLoop pf st rest
      else if \<not> allOnUnit pf st list then findLoop pf st rest
      else Some key)"

definition findMatchingPresetKey :: "(jsval \<Rightarrow> jsnum) \<Rightarrow> state \<Rightarrow> jsstring option" where
  "findMatchingPresetKey pf st = findLoop pf st PRESETS"

section \<open>Example states\<close>

text \<open>The state of the module when it is loaded: no names, two empty objects.\<close>

definition initialState :: state where
  "initialState = \<lparr>names = [], on = Map.empty, weight = Map.empty\<rparr>"

text \<open>A state with three names, the second switched off, the third without a weight.\<close>

definition exampleState :: state where
  "exampleState =
     \<lparr>names = [ascii ''a'', ascii ''b'', ascii ''c''],
      on = [ascii ''a'' \<mapsto> Boolean True, ascii ''b'' \<mapsto> Boolean False,
            ascii ''c'' \<mapsto> Boolean True],
      weight = [ascii ''a'' \<mapsto> Number (Fin 50), ascii ''b'' \<mapsto> Number (Fin 2)]\<rparr>"

section \<open>The service worker\<close>

text \<open>
  One fetch event, seen from the handler: what the cache storage holds, what the network
  answers (\<open>None\<close> when the promise of \<open>fetch\<close> rejects), the origin of a URL as
  \<open>new URL(url).origin\<close> computes it, the origin of the worker, and whether
  \<open>caches.open\<close> resolves.  \<open>caches.match\<close> itself is taken to resolve, with a stored
  response or with \<open>undefined\<close> (\<open>None\<close>).
\<close>

record request =
  req_method :: string
  req_url :: string

record response =
  resp_ok :: bool
  resp_body :: string

record worker_env =
  cacheMatch :: "request \<Rightarrow> response option"
  network :: "request \<Rightarrow> response option"
  originOf :: "string \<Rightarrow> string"
  locationOrigin :: string
  cacheOpens :: bool

text \<open>
  What a handler does: the value its promise resolves to, the requests it sent to the
  network, and the pairs it handed to \<open>cache.put\<close>.
\<close>

record outcome =
  responded :: "response option"
  fetched :: "request list"
  stored :: "(request \<times> response) list"

definition OFFLINE_URL :: string where
  "OFFLINE_URL = ''./index.html''"

text \<open>\<open>caches.match\<close> of a URL string matches the GET request for that URL.\<close>

definition offlineRequest :: request where
  "offlineRequest = \<lparr>req_method = ''GET'', req_url = OFFLINE_URL\<rparr>"

definition cacheable :: "worker_env \<Rightarrow> request \<Rightarrow> response \<Rightarrow> bool" where
  "cacheable env req resp =
     (req_method req = ''GET'' \<and> resp_ok resp \<and> originOf env (req_url req) = locationOrigin env)"

text \<open>
  The fetch listener of \<open>sw.js\<close>:
  \<^verbatim>\<open>caches.match(e.request).then(r => r || fetch(e.request).then(...).catch(...))\<close>.
  The write to the cache is a promise nobody waits for: when \<open>caches.open\<close> rejects,
  nothing is stored and the response is returned all the same.
\<close>

definition fetchListener :: "worker_env \<Rightarrow> request \<Rightarrow> outcome" where
  "fetchListener env req =
     (case cacheMatch env req of
        Some r \<Rightarrow> \<lparr>responded = Some r, fetched = [], stored = []\<rparr>
      | None \<Rightarrow>
          (case network env req of
             Some resp \<Rightarrow>
               \<lparr>responded = Some resp, fetched = [req],
                stored = (if cacheable env req resp \<and> cacheOpens env then [(req, resp)] else [])\<rparr>
           | None \<Rightarrow>
               \<lparr>responded = cacheMatch env offlineRequest, fetched = [req], stored = []\<rparr>))"

text \<open>
  \<open>handleRequest\<close> of the later worker.  Here \<open>caches.open\<close> is awaited inside the
  \<open>try\<close> block, so its rejection also ends in the offline fallback.
\<close>

definition handleRequest :: "worker_env \<Rightarrow> request \<Rightarrow> outcome" where
  "handleRequest env req =
     (case cacheMatch env req of
        Some cached \<Rightarrow> \<lparr>responded = Some cached, fetched = [], stored = []\<rparr>
      | None \<Rightarrow>
          (case network env req of
             Some resp \<Rightarrow>
               (if cacheable env req resp
                then (if cacheOpens env
                      then \<lparr>responded = Some resp, fetched = [req], stored = [(req, resp)]\<rparr>
                      else \<lparr>responded = cacheMatch env offlineRequest, fetched = [req],
                            stored = []\<rparr>)
                else \<lparr>responded = Some resp, fetched = [req], stored = []\<rparr>)
           | None \<Rightarrow>
               \<lparr>responded = cacheMatch env offlineRequest, fetched = [req], stored = []\<rparr>))"

text \<open>An event for a page that is not cached while the network is down.\<close>

definition indexPage :: response where
  "indexPage = \<lparr>resp_ok = True, resp_body = ''index''\<rparr>"

definition pageRequest :: request where
  "pageRequest = \<lparr>req_method = ''GET'', req_url = ''./other.html''\<rparr>"

definition offlineEnv :: worker_env where
  "offlineEnv =
     \<lparr>cacheMatch = (\<lambda>r. if r = offlineRequest then Some indexPage else None),
      network = (\<lambda>r. None),
      originOf = (\<lambda>u. ''https://example.org''),
      locationOrigin = ''https://example.org'',
      cacheOpens = True\<rparr>"

section \<open>The wheel core\<close>

text \<open>
  The modules \<open>wheel.js\<close> and \<open>animation.js\<close>, which \<open>main.js\<close> imports, are not
  available.  The Weighted Selector, the Segment Wheel and the Animation Controller are
  therefore modelled from the specification.  Angles and times are reals; the full turn
  is a fixed unit.
\<close>

text \<open>
  Modelled from the spec: the error taxonomy of section 7, missing with \<open>wheel.js\<close> and
  \<open>animation.js\<close>.
\<close>

datatype error = InvalidInput

text \<open>
  Modelled from the spec: the cumulative-sum scan of the Weighted Selector (section 4.1),
  missing with \<open>wheel.js\<close> and \<open>animation.js\<close>.  Bucket \<open>i\<close> is the half-open interval
  from the sum of the weights before \<open>i\<close> to that sum plus weight \<open>i\<close>; the scan returns
  the first index whose upper end lies above \<open>x\<close>.
\<close>

fun scanBuckets :: "real list \<Rightarrow> real \<Rightarrow> real \<Rightarrow> nat \<Rightarrow> nat option" where
  "scanBuckets [] x acc i = None"
| "scanBuckets (w # ws) x acc i =
     (if x < acc + w then Some i else scanBuckets ws x (acc + w) (i + 1))"

text \<open>
  Modelled from the spec: the Weighted Selector (section 4.1), missing with \<open>wheel.js\<close>
  and \<open>animation.js\<close>.  It returns the index of the bucket that contains
  \<open>u * sum(weights)\<close> and fails with \<open>InvalidInput\<close> when the sequence is empty or all
  weights are zero.  The spec leaves a draw outside its contract (\<open>u\<close> not below 1)
  undefined; the model reports a value that no bucket contains as invalid input too.
\<close>

definition weightedSelect :: "real list \<Rightarrow> real \<Rightarrow> error + nat" where
  "weightedSelect ws u =
     (if ws = [] \<or> list_all (\<lambda>w. w = 0) ws then Inl InvalidInput
      else case scanBuckets ws (u * sum_list ws) 0 0 of
             Some i \<Rightarrow> Inr i
           | None \<Rightarrow> Inl InvalidInput)"

text \<open>
  Modelled from the spec: the Entry of section 3, missing with \<open>wheel.js\<close>: a name and a
  real weight.
\<close>

record Entry =
  ename :: jsstring
  eweight :: real

text \<open>
  Modelled from the spec: the Segment of section 3, missing with \<open>wheel.js\<close>: an entry
  and the two ends of its arc.
\<close>

record Segment =
  entry :: Entry
  startAngle :: real
  endAngle :: real

text \<open>
  Modelled from the spec: the Wheel State of section 3, missing with \<open>wheel.js\<close>: the
  ordered segments and the current rotation.
\<close>

record WheelState =
  segments :: "Segment list"
  rotation :: real

text \<open>Modelled from the spec: the fixed full-turn unit of section 3, here degrees.\<close>

definition FULL_TURN :: real where
  "FULL_TURN = 360"

text \<open>
  Modelled from the spec: the cumulative angular offsets of \<open>rebuild\<close> (sections 3 and
  4.2), missing with \<open>wheel.js\<close>: the width of a segment is the full turn times the
  share of its weight in the sum of all weights, and each segment starts where the one
  before it ends.  \<open>tot\<close> is the sum of all weights, \<open>acc\<close> the sum of the weights
  already laid out.  The spec asks for at least one positive weight; the theorems below
  assume that every weight is positive, as the weights of entries are.
\<close>

fun layout :: "Entry list \<Rightarrow> real \<Rightarrow> real \<Rightarrow> Segment list" where
  "layout [] tot acc = []"
| "layout (e # es) tot acc =
     \<lparr>entry = e,
      startAngle = FULL_TURN * acc / tot,
      endAngle = FULL_TURN * (acc + eweight e) / tot\<rparr>
     # layout es tot (acc + eweight e)"

text \<open>
  Modelled from the spec: \<open>rebuild(entries)\<close> of the Segment Wheel (section 4.2), missing
  with \<open>wheel.js\<close>: the old segments are discarded and the rotation is reset to 0.
\<close>

definition rebuild :: "Entry list \<Rightarrow> WheelState \<Rightarrow> WheelState" where
  "rebuild entries w =
     \<lparr>segments = layout entries (sum_list (map eweight entries)) 0, rotation = 0\<rparr>"

text \<open>Modelled from the spec: the query \<open>hasSegments\<close> (section 4.2), missing with \<open>wheel.js\<close>.\<close>

definition hasSegments :: "WheelState \<Rightarrow> bool" where
  "hasSegments w = (segments w \<noteq> [])"

text \<open>
  Modelled from the spec: the normalization of an angle into the full turn, the first
  step of \<open>resolveAngle\<close> (section 4.2), missing with \<open>wheel.js\<close>.
\<close>

definition normalizeAngle :: "real \<Rightarrow> real" where
  "normalizeAngle a = a - FULL_TURN * of_int \<lfloor>a / FULL_TURN\<rfloor>"

text \<open>
  Modelled from the spec: \<open>resolveAngle\<close> (section 4.2), missing with \<open>wheel.js\<close>: the
  segment whose half-open arc contains the normalized angle; a boundary angle belongs to
  the segment that starts there.
\<close>

definition resolveAngle :: "WheelState \<Rightarrow> real \<Rightarrow> Segment option" where
  "resolveAngle w a =
     find (\<lambda>s. startAngle s \<le> normalizeAngle a \<and> normalizeAngle a < endAngle s) (segments w)"

section \<open>The Animation Controller\<close>

text \<open>
  Modelled from the spec: the states of the Animation Controller (section 4.3), missing
  with \<open>animation.js\<close>.
\<close>

datatype phase = Idle | Spinning | Decelerating | Settled

text \<open>
  Modelled from the spec: the Animation Run (section 3), missing with \<open>animation.js\<close>,
  with the landing angle chosen in \<open>start\<close> and the initial condition and finish time of
  the deceleration curve that \<open>requestDecel\<close> captures (section 4.3).
\<close>

record AnimationRun =
  startTime :: real
  startRotation :: real
  totalDuration :: real
  decelDuration :: real
  decelRequestedAt :: "real option"
  targetIndex :: nat
  landingAngle :: real
  decelStart :: real
  decelFrom :: real
  decelDistance :: real
  decelEnd :: real

text \<open>
  Modelled from the spec: the two notification channels of section 6, missing with
  \<open>animation.js\<close>: a state change carrying \<open>isRunning\<close> and \<open>stopEnabled\<close>, and the
  winner.
\<close>

datatype notification = StateChange bool bool | Winner Entry

text \<open>
  Modelled from the spec: the controller, missing with \<open>animation.js\<close>: its state, the
  wheel it drives, the run in progress, and the notifications it has emitted so far.
\<close>

record Controller =
  phase :: phase
  wheel :: WheelState
  run :: "AnimationRun option"
  notifications :: "notification list"

text \<open>
  Modelled from the spec: the configuration that section 4.3 refers to, missing with
  \<open>animation.js\<close>: the bounds of a duration, the extra whole turns of a deceleration,
  and the two curves the spec does not fix: the rotation gained after a time of spinning,
  and the share of the distance covered after a time of a deceleration of a given
  duration.
\<close>

record Config =
  minDuration :: real
  maxDuration :: real
  extraTurns :: nat
  spinCurve :: "real \<Rightarrow> real"
  easeOut :: "real \<Rightarrow> real \<Rightarrow> real"

text \<open>Modelled from the spec: the effective durations that \<open>start\<close> returns (section 6).\<close>

record Schedule =
  total :: real
  decel :: real

text \<open>
  Modelled from the spec: the clamping of a duration hint to the configured minimum and
  maximum (section 4.3), missing with \<open>animation.js\<close>.
\<close>

definition clampDuration :: "Config \<Rightarrow> real \<Rightarrow> real" where
  "clampDuration cfg x = max (minDuration cfg) (min (maxDuration cfg) x)"

text \<open>
  Modelled from the spec: the normalization of the two hints in \<open>start\<close> (section 4.3),
  missing with \<open>animation.js\<close>: both are clamped, and the deceleration is additionally
  clamped to be at most the total.
\<close>

definition normalizeDurations :: "Config \<Rightarrow> real \<Rightarrow> real \<Rightarrow> Schedule" where
  "normalizeDurations cfg totalHint decelHint =
     (let t = clampDuration cfg totalHint;
          d = min (clampDuration cfg decelHint) t
      in \<lparr>total = t, decel = d\<rparr>)"

text \<open>
  Modelled from the spec: \<open>start\<close> (section 4.3), missing with \<open>animation.js\<close>.  It is
  valid from \<open>Idle\<close> or \<open>Settled\<close> only and a no-op without result when the wheel has no
  segments.  \<open>u1\<close> and \<open>u2\<close> are the two draws of the injected random source: the
  first selects the target over the segment widths, the second the landing angle inside
  the arc of the target.  An \<open>InvalidInput\<close> of the selector is not surfaced.
\<close>

definition start ::
  "Config \<Rightarrow> real \<Rightarrow> real \<Rightarrow> real \<Rightarrow> real \<Rightarrow> real \<Rightarrow> Controller \<Rightarrow> Schedule option \<times> Controller" where
  "start cfg u1 u2 now totalHint decelHint c =
     (if phase c \<noteq> Idle \<and> phase c \<noteq> Settled then (None, c)
      else if \<not> hasSegments (wheel c) then (None, c)
      else
        (case weightedSelect (map (\<lambda>s. endAngle s - startAngle s) (segments (wheel c))) u1 of
           Inl e \<Rightarrow> (None, c)
         | Inr i \<Rightarrow>
             (let sched = normalizeDurations cfg totalHint decelHint;
                  seg = segments (wheel c) ! i;
                  landing = startAngle seg + u2 * (endAngle seg - startAngle seg)
              in (Some sched,
                  c\<lparr>phase := Spinning,
                    run := Some \<lparr>startTime = now, startRotation = rotation (wheel c),
                                 totalDuration = total sched, decelDuration = decel sched,
                                 decelRequestedAt = None, targetIndex = i,
                                 landingAngle = landing, decelStart = 0, decelFrom = 0,
                                 decelDistance = 0, decelEnd = 0\<rparr>,
                    notifications := notifications c @ [StateChange True True]\<rparr>))))"

text \<open>
  Modelled from the spec: the entry into \<open>Decelerating\<close> (section 4.3), missing with
  \<open>animation.js\<close>: the current rotation is the initial condition, the distance is the
  minimal non-negative rotation that reaches the landing angle plus the configured extra
  whole turns, the finish time is recomputed, and a state change is emitted after which
  a further stop request is not meaningful.
\<close>

definition beginDecel :: "Config \<Rightarrow> real \<Rightarrow> real \<Rightarrow> real option \<Rightarrow> AnimationRun \<Rightarrow> Controller \<Rightarrow> Controller" where
  "beginDecel cfg now d requested r c =
     c\<lparr>phase := Decelerating,
       run := Some (r\<lparr>decelDuration := d,
                      decelRequestedAt := requested,
                      decelStart := now,
                      decelFrom := rotation (wheel c),
                      decelDistance := normalizeAngle (landingAngle r - rotation (wheel c))
                                         + real (extraTurns cfg) * FULL_TURN,
                      decelEnd := now + d\<rparr>),
       notifications := notifications c @ [StateChange True False]\<rparr>"

text \<open>
  Modelled from the spec: \<open>requestDecel\<close> (section 4.3), missing with \<open>animation.js\<close>:
  valid from \<open>Spinning\<close> only, a no-op from every other state; the hint is normalized as
  in \<open>start\<close>.
\<close>

definition requestDecel :: "Config \<Rightarrow> real \<Rightarrow> real \<Rightarrow> Controller \<Rightarrow> Controller" where
  "requestDecel cfg now decelHint c =
     (case run c of
        None \<Rightarrow> c
      | Some r \<Rightarrow>
          if phase c = Spinning
          then beginDecel cfg now (min (clampDuration cfg decelHint) (totalDuration r))
                 (Some now) r c
          else c)"

text \<open>
  Modelled from the spec: Finalize (section 4.3), missing with \<open>animation.js\<close>: the
  rotation is set to exactly the landing angle, the wheel resolves it, the controller is
  \<open>Settled\<close>, the run is destroyed and the winner is notified.  The committed target
  takes precedence over the resolved segment.
\<close>

definition finalize :: "AnimationRun \<Rightarrow> Controller \<Rightarrow> Controller" where
  "finalize r c =
     (let w = (wheel c)\<lparr>rotation := landingAngle r\<rparr>;
          target = segments w ! targetIndex r;
          winner = (case resolveAngle w (rotation w) of
                      Some s \<Rightarrow> if s = target then entry s else entry target
                    | None \<Rightarrow> entry target)
      in c\<lparr>phase := Settled, wheel := w, run := None,
           notifications := notifications c @ [Winner winner]\<rparr>)"

text \<open>
  Modelled from the spec: one tick at time \<open>now\<close> (section 4.3), missing with
  \<open>animation.js\<close>.  While \<open>Spinning\<close> the rotation follows the spin curve until the
  schedule reaches the start of the deceleration; while \<open>Decelerating\<close> it follows the
  ease-out curve over the captured distance until the finish time, where the run is
  finalized.  Outside these two states a tick is a no-op.
\<close>

definition tick :: "Config \<Rightarrow> real \<Rightarrow> Controller \<Rightarrow> Controller" where
  "tick cfg now c =
     (case run c of
        None \<Rightarrow> c
      | Some r \<Rightarrow>
          if phase c = Spinning then
            (if totalDuration r - decelDuration r \<le> now - startTime r
             then beginDecel cfg now (decelDuration r) None r c
             else c\<lparr>wheel := (wheel c)\<lparr>rotation :=
                        startRotation r + spinCurve cfg (now - startTime r)\<rparr>\<rparr>)
          else if phase c = Decelerating then
            (if decelEnd r \<le> now then finalize r c
             else c\<lparr>wheel := (wheel c)\<lparr>rotation :=
                        decelFrom r + decelDistance r *
                          easeOut cfg (now - decelStart r) (decelDuration r)\<rparr>\<rparr>)
          else c)"

text \<open>
  Modelled from the spec: what happens to a run after \<open>start\<close>: ticks at synthetic times
  and stop requests (sections 5 and 9).  \<open>Tick now\<close> is a tick at time \<open>now\<close>,
  \<open>RequestDecel now hint\<close> a stop request at time \<open>now\<close> with the given hint.
\<close>

datatype event = Tick real | RequestDecel real real

text \<open>Modelled from the spec: the effect of one event on the controller.\<close>

fun step :: "Config \<Rightarrow> event \<Rightarrow> Controller \<Rightarrow> Controller" where
  "step cfg (Tick now) c = tick cfg now c"
| "step cfg (RequestDecel now decelHint) c = requestDecel cfg now decelHint c"

text \<open>
  Modelled from the spec: the effect of a sequence of events, in any order and at any
  times, one after the other.
\<close>

definition runEvents :: "Config \<Rightarrow> event list \<Rightarrow> Controller \<Rightarrow> Controller" where
  "runEvents cfg evs c = fold (step cfg) evs c"

text \<open>The winners notified so far, oldest first.\<close>

fun winners :: "notification list \<Rightarrow> Entry list" where
  "winners [] = []"
| "winners (Winner e # ns) = e # winners ns"
| "winners (StateChange a b # ns) = winners ns"

text \<open>
  The invariant of a run whose target is segment \<open>i\<close> of \<open>segs\<close> with landing angle
  \<open>landing\<close>, started when the winners notified were \<open>ws\<close>: either the run is in
  progress and still carries the committed target and landing angle, or the controller
  has settled at the landing angle and has notified the entry of the target, once.
\<close>

definition committed ::
  "Segment list \<Rightarrow> nat \<Rightarrow> real \<Rightarrow> Entry list \<Rightarrow> Controller \<Rightarrow> bool" where
  "committed segs i landing ws c =
     (segments (wheel c) = segs \<and>
      (if phase c = Spinning \<or> phase c = Decelerating
       then (case run c of
               None \<Rightarrow> False
             | Some r \<Rightarrow> targetIndex r = i \<and> landingAngle r = landing) \<and>
            winners (notifications c) = ws
       else phase c = Settled \<and> run c = None \<and> rotation (wheel c) = landing \<and>
            winners (notifications c) = ws @ [entry (segs ! i)]))"

section \<open>The start handler of the page\<close>

text \<open>
  \<open>startHandler\<close> of \<open>main.js\<close>, the caller of \<open>start\<close>.  The page holds the shared
  state, the controller with its wheel, the two duration inputs (modelled by the numbers
  they show) and the number of calls of \<open>ui.updateStartButton\<close>.
\<close>

record Page =
  shared :: state
  controller :: Controller
  maxTime :: real
  decelTime :: real
  startButtonUpdates :: nat

text \<open>
  An entry of \<open>getActiveEntries\<close> as the wheel receives it.  Its weight is finite, since
  it comes from \<open>normalizeWeightValue\<close>.
\<close>

definition toEntry :: "entry \<Rightarrow> Entry" where
  "toEntry e =
     \<lparr>ename = entry_name e, eweight = (case entry_weight e of Fin x \<Rightarrow> x | _ \<Rightarrow> 0)\<rparr>"

text \<open>
  \<open>x.toFixed(1)\<close>: the nearest number with one decimal digit, the larger of two equally
  near ones, computed on the absolute value.
\<close>

definition toFixed1 :: "real \<Rightarrow> real" where
  "toFixed1 x =
     (if x < 0 then - (of_int \<lfloor>- x * 10 + 1 / 2\<rfloor> / 10) else of_int \<lfloor>x * 10 + 1 / 2\<rfloor> / 10)"

definition startHandler ::
  "(jsval \<Rightarrow> jsnum) \<Rightarrow> Config \<Rightarrow> real \<Rightarrow> real \<Rightarrow> real \<Rightarrow> Page \<Rightarrow> Page" where
  "startHandler pf cfg u1 u2 now pg =
     (let c = controller pg;
          c = (if \<not> hasSegments (wheel c)
               then c\<lparr>wheel := rebuild (map toEntry (fst (getActiveEntries pf (shared pg))))
                                  (wheel c)\<rparr>
               else c)
      in if \<not> hasSegments (wheel c)
         then pg\<lparr>controller := c, startButtonUpdates := startButtonUpdates pg + 1\<rparr>
         else
           (case start cfg u1 u2 now (maxTime pg) (decelTime pg) c of
              (None, c') \<Rightarrow> pg\<lparr>controller := c'\<rparr>
            | (Some result, c') \<Rightarrow>
                pg\<lparr>controller := c',
                   maxTime := toFixed1 (total result),
                   decelTime := toFixed1 (decel result)\<rparr>))"

section \<open>An example wheel\<close>

definition exampleConfig :: Config where
  "exampleConfig =
     \<lparr>minDuration = 1, maxDuration = 30, extraTurns = 2,
      spinCurve = (\<lambda>t. 100 * t),
      easeOut = (\<lambda>t d. 1 - (1 - t / d) * (1 - t / d))\<rparr>"

definition exampleEntries :: "Entry list" where
  "exampleEntries = [\<lparr>ename = ascii ''a'', eweight = 1\<rparr>, \<lparr>ename = ascii ''b'', eweight = 3\<rparr>]"

definition emptyWheel :: WheelState where
  "emptyWheel = \<lparr>segments = [], rotation = 0\<rparr>"

definition idleController :: Controller where
  "idleController =
     \<lparr>phase = Idle, wheel = rebuild exampleEntries emptyWheel, run = None, notifications = []\<rparr>"

definition emptyController :: Controller where
  "emptyController = \<lparr>phase = Idle, wheel = emptyWheel, run = None, notifications = []\<rparr>"

definition emptyPage :: Page where
  "emptyPage =
     \<lparr>shared = initialState, controller = emptyController, maxTime = 0, decelTime = 100,
      startButtonUpdates = 0\<rparr>"

text \<open>A run with two stop requests, the second one after the deceleration has begun.\<close>

definition exampleEvents :: "event list" where
  "exampleEvents =
     [Tick (1 / 2), RequestDecel (6 / 10) 3, Tick 1, RequestDecel 2 1, Tick (16 / 10), Tick 7]"

section \<open>Properties of normalizeWeightValue\<close>

lemma normalizeWeightValue_inBand: "inBand (normalizeWeightValue pf v)"
  by (cases "toNum pf v")
     (simp_all add: normalizeWeightValue_def inBand_def isNaN_def js_gt_def
        WEIGHT_MIN_def WEIGHT_MAX_def Let_def)

lemma normalizeWeightValue_one: "normalizeWeightValue pf (Number (Fin 1)) = Fin 1"
  by (simp add: normalizeWeightValue_def toNum_def isNaN_def js_gt_def
        WEIGHT_MIN_def WEIGHT_MAX_def)

text \<open>
  Claim C2.  For every input, number or string, \<open>normalizeWeightValue\<close> returns a weight
  in the closed interval from 0.1 to 10: a value below 0.1 gives 0.1, a value above 10
  gives 10, a value inside the band is returned as it is, and an input that is not
  numeric (\<open>NaN\<close> after parsing) gives 1.
\<close>

theorem normalizeWeightValue_clamps:
  "inBand (normalizeWeightValue pf v) \<and>
   (js_lt (toNum pf v) (Fin WEIGHT_MIN) \<longrightarrow> normalizeWeightValue pf v = Fin WEIGHT_MIN) \<and>
   (js_gt (toNum pf v) (Fin WEIGHT_MAX) \<longrightarrow> normalizeWeightValue pf v = Fin WEIGHT_MAX) \<and>
   (inBand (toNum pf v) \<longrightarrow> normalizeWeightValue pf v = toNum pf v) \<and>
   (isNaN (toNum pf v) \<longrightarrow> normalizeWeightValue pf v = Fin 1)"
  by (cases "toNum pf v")
     (simp_all add: normalizeWeightValue_def inBand_def isNaN_def js_gt_def
        WEIGHT_MIN_def WEIGHT_MAX_def Let_def)

theorem normalizeWeightValue_clamps_witness:
  "js_lt (toNum (\<lambda>v. NaN) (Number (Fin 0))) (Fin WEIGHT_MIN) \<and>
   normalizeWeightValue (\<lambda>v. NaN) (Number (Fin 0)) = Fin (1 / 10) \<and>
   js_gt (toNum (\<lambda>v. NaN) (Number PosInf)) (Fin WEIGHT_MAX) \<and>
   normalizeWeightValue (\<lambda>v. NaN) (Number PosInf) = Fin 10 \<and>
   inBand (toNum (\<lambda>v. Fin (5 / 2)) (String (ascii ''2.5''))) \<and>
   normalizeWeightValue (\<lambda>v. Fin (5 / 2)) (String (ascii ''2.5'')) = Fin (5 / 2) \<and>
   isNaN (toNum (\<lambda>v. NaN) (String (ascii ''abc''))) \<and>
   normalizeWeightValue (\<lambda>v. NaN) (String (ascii ''abc'')) = Fin 1"
  using normalizeWeightValue_clamps [of "\<lambda>v. NaN" "Number (Fin 0)"]
        normalizeWeightValue_clamps [of "\<lambda>v. NaN" "Number PosInf"]
        normalizeWeightValue_clamps [of "\<lambda>v. Fin (5 / 2)" "String (ascii ''2.5'')"]
        normalizeWeightValue_clamps [of "\<lambda>v. NaN" "String (ascii ''abc'')"]
  by (simp add: toNum_def inBand_def isNaN_def js_gt_def WEIGHT_MIN_def WEIGHT_MAX_def)

section \<open>Properties of getActiveEntries\<close>

lemma activeLoop_eq:
  "activeLoop pf st ns acc =
     acc @ map (\<lambda>n. \<lparr>entry_name = n,
                      entry_weight = normalizeWeightValue pf (get_prop (weight st) n)\<rparr>)
             (filter (\<lambda>n. truthy (get_prop (on st) n)) ns)"
  by (induction ns arbitrary: acc) simp_all

text \<open>
  What the loop computes: the names whose read \<open>state.on[name]\<close> is truthy, in the order
  of \<open>state.names\<close>, each with the normalized read of its weight, which lies in the
  band; the state after the call is the state before it.
\<close>

lemma getActiveEntries_eq:
  "getActiveEntries pf st =
     (map (\<lambda>n. \<lparr>entry_name = n,
                 entry_weight = normalizeWeightValue pf (get_prop (weight st) n)\<rparr>)
        (filter (\<lambda>n. truthy (get_prop (on st) n)) (names st)), st)"
  by (simp add: getActiveEntries_def activeLoop_eq)

lemma getActiveEntries_inBand:
  "e \<in> set (fst (getActiveEntries pf st)) \<Longrightarrow> inBand (entry_weight e)"
  by (auto simp: getActiveEntries_eq normalizeWeightValue_inBand)

text \<open>
  On a state where every name has an own boolean flag, the entries returned are exactly
  those whose flag is \<open>true\<close>.
\<close>

lemma getActiveEntries_own_flags:
  assumes "\<forall>n \<in> set (names st). \<exists>b. on st n = Some (Boolean b)"
  shows "map entry_name (fst (getActiveEntries pf st)) =
           filter (\<lambda>n. on st n = Some (Boolean True)) (names st)"
proof -
  have "filter (\<lambda>n. truthy (get_prop (on st) n)) (names st) =
        filter (\<lambda>n. on st n = Some (Boolean True)) (names st)"
    using assms by (intro filter_cong) (auto simp: get_prop_def)
  then show ?thesis
    by (simp add: getActiveEntries_eq comp_def)
qed

section \<open>Properties of addCharacter\<close>

lemma trim_PROTO: "trim PROTO = PROTO"
  by (simp add: PROTO_def ascii_def trim_def isWhiteSpace_def)

text \<open>A name that trims to the empty string is refused and nothing changes.\<close>

lemma addCharacter_blank:
  "trim (case name of None \<Rightarrow> [] | Some n \<Rightarrow> n) = [] \<Longrightarrow>
   addCharacter pf name w st = (False, st)"
  by (simp add: addCharacter_def)

text \<open>
  Every other name, \<open>__proto__\<close> apart, is appended, switched on and given its
  normalized weight.
\<close>

lemma addCharacter_stores:
  assumes "trim (case name of None \<Rightarrow> [] | Some n \<Rightarrow> n) = t" "t \<noteq> []" "t \<noteq> PROTO"
  shows "\<exists>x. addCharacter pf name w st =
           (True, st\<lparr>names := names st @ [t], on := (on st)(t \<mapsto> Boolean True),
                     weight := (weight st)(t \<mapsto> Number (Fin x))\<rparr>) \<and>
           normalizeWeightValue pf (if w = Undefined then Number (Fin 1) else w) = Fin x \<and>
           WEIGHT_MIN \<le> x \<and> x \<le> WEIGHT_MAX"
proof -
  obtain x where x:
    "normalizeWeightValue pf (if w = Undefined then Number (Fin 1) else w) = Fin x"
    "WEIGHT_MIN \<le> x \<and> x \<le> WEIGHT_MAX"
    using normalizeWeightValue_inBand [of pf "if w = Undefined then Number (Fin 1) else w"]
    by (auto simp: inBand_def split: jsnum.splits)
  show ?thesis
    using assms x by (simp add: addCharacter_def set_prop_def Let_def)
qed

text \<open>
  Claim C8.  \<open>addCharacter\<close> is to store the normalized weight of every name that does
  not trim to the empty string.  For the name \<open>__proto__\<close> on the initial state it
  returns \<open>true\<close> and appends the name, but both assignments are lost: the objects
  \<open>on\<close> and \<open>weight\<close> stay empty, a read of the weight gives the inherited member
  instead of the number 5, and \<open>getActiveEntries\<close> lists the name with the weight that
  \<open>normalizeWeightValue\<close> makes of that member.
\<close>

theorem addCharacter_proto_loses_weight:
  "addCharacter pf (Some PROTO) (Number (Fin 5)) initialState =
     (True, \<lparr>names = [PROTO], on = Map.empty, weight = Map.empty\<rparr>) \<and>
   get_prop (weight (snd (addCharacter pf (Some PROTO) (Number (Fin 5)) initialState))) PROTO
     = Inherited PROTO \<and>
   fst (getActiveEntries pf (snd (addCharacter pf (Some PROTO) (Number (Fin 5)) initialState)))
     = [\<lparr>entry_name = PROTO, entry_weight = normalizeWeightValue pf (Inherited PROTO)\<rparr>]"
  by (simp add: addCharacter_def trim_PROTO set_prop_def initialState_def get_prop_def
        objectPrototypeKeys_def getActiveEntries_def)
     (simp add: PROTO_def ascii_def)

section \<open>getActiveEntries and the names that Object.prototype knows\<close>

lemma trim_toString: "trim (ascii ''toString'') = ascii ''toString''"
  by (simp add: ascii_def trim_def isWhiteSpace_def)

lemma toString_not_PROTO: "ascii ''toString'' \<noteq> PROTO"
  by (simp add: PROTO_def ascii_def)

lemma toString_inherited: "ascii ''toString'' \<in> set objectPrototypeKeys"
  by (simp add: objectPrototypeKeys_def)

lemma PROTO_inherited: "PROTO \<in> set objectPrototypeKeys"
  by (simp add: objectPrototypeKeys_def PROTO_def)

lemma PROTO_not_empty: "PROTO \<noteq> []"
  by (simp add: PROTO_def ascii_def)

lemma toString_not_empty: "ascii ''toString'' \<noteq> []"
  by (simp add: ascii_def)

text \<open>
  Claim C3.  \<open>getActiveEntries\<close> is to return exactly the entries whose enabled flag is
  true, in the order of \<open>state.names\<close>, with normalized weights.  Two states that the
  module itself reaches show that it returns more.  After \<open>addCharacter('__proto__', 5)\<close>
  and \<open>setActive('__proto__', false)\<close> the state is \<open>names = ['__proto__']\<close> with
  empty \<open>on\<close> and \<open>weight\<close>; after \<open>addCharacter('toString')\<close> twice and
  \<open>removeCharacter('toString')\<close> once it is \<open>names = ['toString']\<close>, again with empty
  \<open>on\<close> and \<open>weight\<close>.  In both states no enabled flag is stored for the name, and
  in both \<open>getActiveEntries\<close> returns an entry for it, because the read
  \<open>state.on[name]\<close> finds a member of \<open>Object.prototype\<close>.
\<close>

theorem getActiveEntries_lists_unflagged_names:
  "setActive PROTO (Boolean False)
     (snd (addCharacter pf (Some PROTO) (Number (Fin 5)) initialState))
     = \<lparr>names = [PROTO], on = Map.empty, weight = Map.empty\<rparr> \<and>
   fst (getActiveEntries pf \<lparr>names = [PROTO], on = Map.empty, weight = Map.empty\<rparr>)
     = [\<lparr>entry_name = PROTO, entry_weight = normalizeWeightValue pf (Inherited PROTO)\<rparr>] \<and>
   snd (removeCharacter (ascii ''toString'')
     (snd (addCharacter pf (Some (ascii ''toString'')) Undefined
       (snd (addCharacter pf (Some (ascii ''toString'')) Undefined initialState)))))
     = \<lparr>names = [ascii ''toString''], on = Map.empty, weight = Map.empty\<rparr> \<and>
   fst (getActiveEntries pf \<lparr>names = [ascii ''toString''], on = Map.empty, weight = Map.empty\<rparr>)
     = [\<lparr>entry_name = ascii ''toString'',
         entry_weight = normalizeWeightValue pf (Inherited (ascii ''toString''))\<rparr>]"
proof -
  have 1: "setActive PROTO (Boolean False)
      (snd (addCharacter pf (Some PROTO) (Number (Fin 5)) initialState))
      = \<lparr>names = [PROTO], on = Map.empty, weight = Map.empty\<rparr>"
    by (simp add: addCharacter_def trim_PROTO PROTO_not_empty set_prop_def initialState_def
          setActive_def)
  have 2: "fst (getActiveEntries pf \<lparr>names = [PROTO], on = Map.empty, weight = Map.empty\<rparr>)
      = [\<lparr>entry_name = PROTO, entry_weight = normalizeWeightValue pf (Inherited PROTO)\<rparr>]"
    by (simp add: getActiveEntries_def get_prop_def PROTO_inherited)
  have 3: "snd (removeCharacter (ascii ''toString'')
     (snd (addCharacter pf (Some (ascii ''toString'')) Undefined
       (snd (addCharacter pf (Some (ascii ''toString'')) Undefined initialState)))))
     = \<lparr>names = [ascii ''toString''], on = Map.empty, weight = Map.empty\<rparr>"
    by (simp add: addCharacter_def trim_toString toString_not_empty set_prop_def
          toString_not_PROTO initialState_def removeCharacter_def Let_def)
  have 4: "fst (getActiveEntries pf
        \<lparr>names = [ascii ''toString''], on = Map.empty, weight = Map.empty\<rparr>)
      = [\<lparr>entry_name = ascii ''toString'',
          entry_weight = normalizeWeightValue pf (Inherited (ascii ''toString''))\<rparr>]"
    by (simp add: getActiveEntries_def get_prop_def toString_inherited)
  from 1 2 3 4 show ?thesis by blast
qed

section \<open>Properties of applyPreset\<close>

lemma fold_upd_const:
  "fold (\<lambda>(k, v) obj. obj(k \<mapsto> v)) (map (\<lambda>n. (n, c)) xs) m =
     (\<lambda>k. if k \<in> set xs then Some c else m k)"
  by (induction xs arbitrary: m) (auto simp: fun_eq_iff)

lemma fromEntries_const:
  "fromEntries (map (\<lambda>n. (n, c)) xs) = (\<lambda>k. if k \<in> set xs then Some c else None)"
  by (simp add: fromEntries_def fold_upd_const)

lemma applyPreset_Some:
  "map_of PRESETS key = Some list \<Longrightarrow>
   applyPreset key st =
     (True, \<lparr>names = list,
             on = (\<lambda>k. if k \<in> set list then Some (Boolean True) else None),
             weight = (\<lambda>k. if k \<in> set list then Some (Number (Fin 1)) else None)\<rparr>)"
  by (simp add: applyPreset_def fromEntries_const Let_def)


lemma distinct_preset_keys: "distinct (map fst PRESETS)"
  by (simp add: PRESETS_def KEY_OMG_def KEY_ORATAN_def KEY_FORCE_def KEY_KINSHO_VO_def)

lemma preset_lengths:
  "length LIST_OMG = 8" "length LIST_ORATAN = 15" "length LIST_FORCE = 12"
  "length LIST_KINSHO_VO = 14"
  by (simp_all add: LIST_OMG_def LIST_ORATAN_def LIST_FORCE_def LIST_KINSHO_VO_def)

text \<open>
  Claim C9.  For every key that is not a preset name, \<open>applyPreset\<close> returns \<open>false\<close>
  and leaves the state unchanged; for every preset key it returns \<open>true\<close> and replaces the
  state: \<open>names\<close> is the preset list, \<open>on\<close> and \<open>weight\<close> hold the listed names and
  no others, every listed name is enabled and every weight is 1.
\<close>

theorem applyPreset_spec:
  "(key \<notin> fst ` set PRESETS \<longrightarrow> applyPreset key st = (False, st)) \<and>
   (\<forall>list. (key, list) \<in> set PRESETS \<longrightarrow>
      fst (applyPreset key st) = True \<and>
      names (snd (applyPreset key st)) = list \<and>
      dom (on (snd (applyPreset key st))) = set list \<and>
      dom (weight (snd (applyPreset key st))) = set list \<and>
      (\<forall>n \<in> set list.
         get_prop (on (snd (applyPreset key st))) n = Boolean True \<and>
         get_prop (weight (snd (applyPreset key st))) n = Number (Fin 1)))"
proof (intro conjI impI allI)
  assume "key \<notin> fst ` set PRESETS"
  then have "map_of PRESETS key = None"
    by (simp add: map_of_eq_None_iff)
  then show "applyPreset key st = (False, st)"
    by (simp add: applyPreset_def)
next
  fix list
  assume "(key, list) \<in> set PRESETS"
  then have m: "map_of PRESETS key = Some list"
    using distinct_preset_keys by simp
  note ap = applyPreset_Some [OF m, of st]
  show "fst (applyPreset key st) = True" by (simp add: ap)
  show "names (snd (applyPreset key st)) = list" by (simp add: ap)
  show "dom (on (snd (applyPreset key st))) = set list"
    by (auto simp: ap dom_def)
  show "dom (weight (snd (applyPreset key st))) = set list"
    by (auto simp: ap dom_def)
  show "\<forall>n \<in> set list.
         get_prop (on (snd (applyPreset key st))) n = Boolean True \<and>
         get_prop (weight (snd (applyPreset key st))) n = Number (Fin 1)"
    by (simp add: ap get_prop_def)
qed

theorem applyPreset_spec_witness:
  "applyPreset (ascii ''toString'') exampleState = (False, exampleState) \<and>
   fst (applyPreset KEY_OMG exampleState) = True \<and>
   names (snd (applyPreset KEY_OMG exampleState)) = LIST_OMG \<and>
   get_prop (on (snd (applyPreset KEY_OMG exampleState))) [0x30D5, 0x30A7, 0x30A4] = Boolean True \<and>
   get_prop (weight (snd (applyPreset KEY_OMG exampleState))) [0x30D5, 0x30A7, 0x30A4] = Number (Fin 1)"
proof -
  have a: "ascii ''toString'' \<notin> fst ` set PRESETS"
    by (simp add: PRESETS_def KEY_OMG_def KEY_ORATAN_def KEY_FORCE_def KEY_KINSHO_VO_def ascii_def)
  have b: "(KEY_OMG, LIST_OMG) \<in> set PRESETS"
    by (simp add: PRESETS_def)
  have c: "[0x30D5, 0x30A7, 0x30A4] \<in> set LIST_OMG"
    by (simp add: LIST_OMG_def)
  from applyPreset_spec [of "ascii ''toString''" exampleState] a
  have 1: "applyPreset (ascii ''toString'') exampleState = (False, exampleState)" by blast
  from applyPreset_spec [of KEY_OMG exampleState] b c
  show ?thesis using 1 by blast
qed

section \<open>Properties of findMatchingPresetKey\<close>

lemma namesMatch_iff:
  "namesMatch list ns i \<longleftrightarrow> (\<forall>j. i \<le> j \<and> j < length list \<longrightarrow> j < length ns \<and> list ! j = ns ! j)"
proof (induction list ns i rule: namesMatch.induct)
  case (1 list ns i)
  show ?case
  proof (cases "i < length list \<and> i < length ns \<and> list ! i = ns ! i")
    case True
    then have "namesMatch list ns i = namesMatch list ns (i + 1)"
      by (subst namesMatch.simps) simp
    also have "\<dots> \<longleftrightarrow> (\<forall>j. i + 1 \<le> j \<and> j < length list \<longrightarrow> j < length ns \<and> list ! j = ns ! j)"
      using "1.IH" True by simp
    also have "\<dots> \<longleftrightarrow> (\<forall>j. i \<le> j \<and> j < length list \<longrightarrow> j < length ns \<and> list ! j = ns ! j)"
    proof (intro iffI allI impI)
      fix j
      assume h: "\<forall>j. i + 1 \<le> j \<and> j < length list \<longrightarrow> j < length ns \<and> list ! j = ns ! j"
        and j: "i \<le> j \<and> j < length list"
      show "j < length ns \<and> list ! j = ns ! j"
      proof (cases "j = i")
        case True
        with \<open>i < length list \<and> i < length ns \<and> list ! i = ns ! i\<close> show ?thesis by simp
      next
        case False
        with j have "i + 1 \<le> j \<and> j < length list" by simp
        with h show ?thesis by blast
      qed
    next
      fix j
      assume h: "\<forall>j. i \<le> j \<and> j < length list \<longrightarrow> j < length ns \<and> list ! j = ns ! j"
        and j: "i + 1 \<le> j \<and> j < length list"
      then have "i \<le> j \<and> j < length list" by simp
      with h show "j < length ns \<and> list ! j = ns ! j" by blast
    qed
    finally show ?thesis .
  next
    case False
    then show ?thesis
      by (subst namesMatch.simps) auto
  qed
qed

lemma namesMatch_refl: "namesMatch list list 0"
  by (simp add: namesMatch_iff)

lemma allOnUnit_iff:
  "allOnUnit pf st xs \<longleftrightarrow>
     (\<forall>n \<in> set xs. truthy (get_prop (on st) n) \<and>
        normalizeWeightValue pf (get_prop (weight st) n) = Fin 1)"
  by (induction xs) auto

lemma applied_allOnUnit:
  assumes "map_of PRESETS key = Some list"
  shows "allOnUnit pf (snd (applyPreset key st)) list"
  by (simp add: applyPreset_Some [OF assms] allOnUnit_iff get_prop_def normalizeWeightValue_one)

text \<open>
  Claim C10.  For every preset key, \<open>applyPreset\<close> succeeds and
  \<open>findMatchingPresetKey\<close>, called on the state it leaves, returns that same key.
\<close>

theorem applyPreset_findMatchingPresetKey:
  "key \<in> fst ` set PRESETS \<Longrightarrow>
   fst (applyPreset key st) = True \<and>
   findMatchingPresetKey pf (snd (applyPreset key st)) = Some key"
proof -
  assume "key \<in> fst ` set PRESETS"
  then consider "key = KEY_OMG" | "key = KEY_ORATAN" | "key = KEY_FORCE" | "key = KEY_KINSHO_VO"
    by (auto simp: PRESETS_def)
  then show ?thesis
  proof cases
    case 1
    have m: "map_of PRESETS KEY_OMG = Some LIST_OMG"
      by (simp add: PRESETS_def)
    show ?thesis
      unfolding 1 using applied_allOnUnit [OF m, of pf st]
      by (simp add: applyPreset_Some [OF m] findMatchingPresetKey_def PRESETS_def
            preset_lengths namesMatch_refl)
  next
    case 2
    have m: "map_of PRESETS KEY_ORATAN = Some LIST_ORATAN"
      by (simp add: PRESETS_def KEY_OMG_def KEY_ORATAN_def)
    show ?thesis
      unfolding 2 using applied_allOnUnit [OF m, of pf st]
      by (simp add: applyPreset_Some [OF m] findMatchingPresetKey_def PRESETS_def
            preset_lengths namesMatch_refl)
  next
    case 3
    have m: "map_of PRESETS KEY_FORCE = Some LIST_FORCE"
      by (simp add: PRESETS_def KEY_OMG_def KEY_ORATAN_def KEY_FORCE_def)
    show ?thesis
      unfolding 3 using applied_allOnUnit [OF m, of pf st]
      by (simp add: applyPreset_Some [OF m] findMatchingPresetKey_def PRESETS_def
            preset_lengths namesMatch_refl)
  next
    case 4
    have m: "map_of PRESETS KEY_KINSHO_VO = Some LIST_KINSHO_VO"
      by (simp add: PRESETS_def KEY_OMG_def KEY_ORATAN_def KEY_FORCE_def KEY_KINSHO_VO_def)
    show ?thesis
      unfolding 4 using applied_allOnUnit [OF m, of pf st]
      by (simp add: applyPreset_Some [OF m] findMatchingPresetKey_def PRESETS_def
            preset_lengths namesMatch_refl)
  qed
qed

theorem applyPreset_findMatchingPresetKey_witness:
  "KEY_FORCE \<in> fst ` set PRESETS \<and>
   findMatchingPresetKey (\<lambda>v. NaN) (snd (applyPreset KEY_FORCE exampleState)) = Some KEY_FORCE"
proof -
  have k: "KEY_FORCE \<in> fst ` set PRESETS"
    by (simp add: PRESETS_def)
  from applyPreset_findMatchingPresetKey [OF k, of exampleState "\<lambda>v. NaN"] k
  show ?thesis by simp
qed

section \<open>Properties of the service worker\<close>

text \<open>
  Claim C5.  For every fetch request, both versions of the fetch handler answer with the
  cached response whenever there is one, without a request to the network; the network
  is asked only when the cache has no response; and when the network fetch fails, the
  answer is whatever the cache holds for the index page.
\<close>

theorem fetch_cache_first:
  "(\<forall>r. cacheMatch env req = Some r \<longrightarrow>
      responded (fetchListener env req) = Some r \<and> fetched (fetchListener env req) = [] \<and>
      responded (handleRequest env req) = Some r \<and> fetched (handleRequest env req) = []) \<and>
   (fetched (fetchListener env req) \<noteq> [] \<longrightarrow> cacheMatch env req = None) \<and>
   (fetched (handleRequest env req) \<noteq> [] \<longrightarrow> cacheMatch env req = None) \<and>
   (cacheMatch env req = None \<and> network env req = None \<longrightarrow>
      fetched (fetchListener env req) = [req] \<and>
      responded (fetchListener env req) = cacheMatch env offlineRequest \<and>
      fetched (handleRequest env req) = [req] \<and>
      responded (handleRequest env req) = cacheMatch env offlineRequest)"
  by (auto simp: fetchListener_def handleRequest_def split: option.splits)

theorem fetch_cache_first_witness:
  "cacheMatch offlineEnv offlineRequest = Some indexPage \<and>
   responded (fetchListener offlineEnv offlineRequest) = Some indexPage \<and>
   fetched (handleRequest offlineEnv offlineRequest) = [] \<and>
   cacheMatch offlineEnv pageRequest = None \<and> network offlineEnv pageRequest = None \<and>
   fetched (fetchListener offlineEnv pageRequest) = [pageRequest] \<and>
   responded (fetchListener offlineEnv pageRequest) = Some indexPage \<and>
   responded (handleRequest offlineEnv pageRequest) = Some indexPage"
  using fetch_cache_first [of offlineEnv offlineRequest]
        fetch_cache_first [of offlineEnv pageRequest]
  by (simp add: offlineEnv_def offlineRequest_def pageRequest_def OFFLINE_URL_def)

section \<open>Properties of the Weighted Selector\<close>

lemma scanBuckets_range:
  "scanBuckets ws x acc k = Some i \<Longrightarrow> k \<le> i \<and> i < k + length ws"
  by (induction ws arbitrary: acc k) (fastforce split: if_splits)+

lemma scanBuckets_finds:
  "acc \<le> x \<Longrightarrow> x < acc + sum_list ws \<Longrightarrow> \<exists>i. scanBuckets ws x acc k = Some i"
  by (induction ws arbitrary: acc k) (auto simp: add.assoc)

lemma weightedSelect_range: "weightedSelect ws u = Inr i \<Longrightarrow> i < length ws"
  using scanBuckets_range [of ws "u * sum_list ws" 0 0 i]
  by (auto simp: weightedSelect_def split: if_splits option.splits)

lemma weightedSelect_total:
  assumes "ws \<noteq> []" "list_all (\<lambda>w. 0 < w) ws" "0 \<le> u" "u < 1"
  shows "\<exists>i. weightedSelect ws u = Inr i"
proof -
  from assms(1,2) have pos: "0 < sum_list ws"
    by (induction ws) (auto simp: add_pos_nonneg sum_list_nonneg list_all_iff less_imp_le)
  then have "0 \<le> u * sum_list ws" "u * sum_list ws < 0 + sum_list ws"
    using assms(3,4) by simp_all
  from scanBuckets_finds [OF this, of 0]
  obtain i where "scanBuckets ws (u * sum_list ws) 0 0 = Some i" by blast
  moreover have "\<not> list_all (\<lambda>w. w = 0) ws"
    using assms(1,2) by (cases ws) auto
  ultimately show ?thesis
    using assms(1) by (simp add: weightedSelect_def)
qed

text \<open>
  Claim C4.  With the weights 1, 1, 1, 1 and the draws 0.0, 0.24, 0.26, 0.49, 0.51 and
  0.99 the Weighted Selector returns the indices 0, 0, 1, 1, 2 and 3, and it fails with
  \<open>InvalidInput\<close> when the weight sequence is empty or all weights are zero.
\<close>

theorem weightedSelect_buckets:
  "weightedSelect [1, 1, 1, 1] 0 = Inr 0 \<and>
   weightedSelect [1, 1, 1, 1] 0.24 = Inr 0 \<and>
   weightedSelect [1, 1, 1, 1] 0.26 = Inr 1 \<and>
   weightedSelect [1, 1, 1, 1] 0.49 = Inr 1 \<and>
   weightedSelect [1, 1, 1, 1] 0.51 = Inr 2 \<and>
   weightedSelect [1, 1, 1, 1] 0.99 = Inr 3 \<and>
   (ws = [] \<or> (\<forall>w \<in> set ws. w = 0) \<longrightarrow> weightedSelect ws u = Inl InvalidInput)"
  by (simp add: weightedSelect_def list_all_iff)

theorem weightedSelect_buckets_witness:
  "weightedSelect [] (1 / 2) = Inl InvalidInput \<and>
   weightedSelect [0, 0, 0] (1 / 2) = Inl InvalidInput"
  using weightedSelect_buckets [of "[]" "1 / 2"] weightedSelect_buckets [of "[0, 0, 0]" "1 / 2"]
  by simp

section \<open>Properties of the Segment Wheel\<close>

lemma FULL_TURN_pos: "0 < FULL_TURN"
  by (simp add: FULL_TURN_def)

lemma weights_sum_pos:
  assumes "es \<noteq> []" "list_all (\<lambda>e. 0 < eweight e) es"
  shows "0 < sum_list (map eweight es)"
proof (cases es)
  case Nil
  with assms(1) show ?thesis by simp
next
  case (Cons e rest)
  have "0 \<le> sum_list (map eweight rest)"
    using assms(2) Cons by (intro sum_list_nonneg) (auto simp: list_all_iff less_imp_le)
  moreover have "0 < eweight e"
    using assms(2) Cons by simp
  ultimately show ?thesis
    using Cons by simp
qed

lemma length_layout: "length (layout es tot acc) = length es"
  by (induction es arbitrary: acc) simp_all

lemma entry_layout: "i < length es \<Longrightarrow> entry (layout es tot acc ! i) = es ! i"
  by (induction es arbitrary: acc i) (auto simp: nth_Cons split: nat.splits)

lemma layout_bounds:
  assumes "s \<in> set (layout es tot acc)" "list_all (\<lambda>e. 0 < eweight e) es" "0 < tot"
  shows "FULL_TURN * acc / tot \<le> startAngle s \<and> startAngle s < endAngle s \<and>
         endAngle s \<le> FULL_TURN * (acc + sum_list (map eweight es)) / tot"
  using assms
proof (induction es arbitrary: acc)
  case Nil
  then show ?case by simp
next
  case (Cons e es)
  have nonneg: "0 \<le> sum_list (map eweight es)"
    using Cons.prems(2) by (intro sum_list_nonneg) (auto simp: list_all_iff less_imp_le)
  have w: "0 < eweight e" using Cons.prems(2) by simp
  have mono: "\<And>a b. a \<le> b \<Longrightarrow> FULL_TURN * a / tot \<le> FULL_TURN * b / tot"
    using FULL_TURN_pos \<open>0 < tot\<close> by (simp add: divide_right_mono)
  have smono: "\<And>a b. a < b \<Longrightarrow> FULL_TURN * a / tot < FULL_TURN * b / tot"
    using FULL_TURN_pos \<open>0 < tot\<close> by (simp add: divide_strict_right_mono)
  show ?case
  proof (cases "s \<in> set (layout es tot (acc + eweight e))")
    case True
    from Cons.IH [OF True] Cons.prems(2,3)
    have ih: "FULL_TURN * (acc + eweight e) / tot \<le> startAngle s"
      "startAngle s < endAngle s"
      "endAngle s \<le> FULL_TURN * (acc + eweight e + sum_list (map eweight es)) / tot"
      by simp_all
    have "FULL_TURN * acc / tot \<le> FULL_TURN * (acc + eweight e) / tot"
      using w by (intro mono) simp
    with ih show ?thesis by (simp add: add.assoc)
  next
    case False
    with Cons.prems(1) have s: "s = \<lparr>entry = e, startAngle = FULL_TURN * acc / tot,
        endAngle = FULL_TURN * (acc + eweight e) / tot\<rparr>"
      by simp
    have "FULL_TURN * acc / tot < FULL_TURN * (acc + eweight e) / tot"
      using w by (intro smono) simp
    moreover have "FULL_TURN * (acc + eweight e) / tot
        \<le> FULL_TURN * (acc + (eweight e + sum_list (map eweight es))) / tot"
      using nonneg by (intro mono) simp
    ultimately show ?thesis by (simp add: s)
  qed
qed

lemma find_layout:
  assumes "i < length es" "list_all (\<lambda>e. 0 < eweight e) es" "0 < tot"
    and "startAngle (layout es tot acc ! i) \<le> a" "a < endAngle (layout es tot acc ! i)"
  shows "find (\<lambda>s. startAngle s \<le> a \<and> a < endAngle s) (layout es tot acc)
           = Some (layout es tot acc ! i)"
  using assms
proof (induction es arbitrary: acc i)
  case Nil
  then show ?case by simp
next
  case (Cons e es)
  show ?case
  proof (cases i)
    case 0
    with Cons.prems show ?thesis by simp
  next
    case (Suc j)
    let ?rest = "layout es tot (acc + eweight e)"
    from Suc Cons.prems(1) have j: "j < length es" by simp
    then have "?rest ! j \<in> set ?rest"
      by (simp add: length_layout)
    from layout_bounds [OF this] Cons.prems(2,3)
    have "FULL_TURN * (acc + eweight e) / tot \<le> startAngle (?rest ! j)"
      by simp
    with Cons.prems(4) Suc have "\<not> a < FULL_TURN * (acc + eweight e) / tot"
      by simp
    moreover have "find (\<lambda>s. startAngle s \<le> a \<and> a < endAngle s) ?rest = Some (?rest ! j)"
      using Cons.IH [OF j, of "acc + eweight e"] Cons.prems Suc by simp
    ultimately show ?thesis
      using Suc by simp
  qed
qed

lemma normalizeAngle_id: "0 \<le> a \<Longrightarrow> a < FULL_TURN \<Longrightarrow> normalizeAngle a = a"
proof -
  assume a: "0 \<le> a" "a < FULL_TURN"
  then have "\<lfloor>a / FULL_TURN\<rfloor> = 0"
    using FULL_TURN_pos by (simp add: floor_eq_iff)
  then show ?thesis by (simp add: normalizeAngle_def)
qed

text \<open>An angle chosen inside the arc of segment i resolves to segment i.\<close>

lemma resolve_landing:
  assumes "i < length es" "list_all (\<lambda>e. 0 < eweight e) es"
    and "segments w = segments (rebuild es w0)"
    and "0 \<le> u" "u < 1"
    and "a = startAngle (segments w ! i) + u * (endAngle (segments w ! i) - startAngle (segments w ! i))"
  shows "resolveAngle w a = Some (segments w ! i)"
proof -
  let ?tot = "sum_list (map eweight es)"
  let ?segs = "layout es ?tot 0"
  have segs: "segments w = ?segs"
    using assms(3) by (simp add: rebuild_def)
  have es: "es \<noteq> []" using assms(1) by auto
  have tot: "0 < ?tot"
    using es assms(2) by (rule weights_sum_pos)
  have "?segs ! i \<in> set ?segs"
    using assms(1) by (simp add: length_layout)
  from layout_bounds [OF this assms(2) tot]
  have b: "0 \<le> startAngle (?segs ! i)" "startAngle (?segs ! i) < endAngle (?segs ! i)"
    "endAngle (?segs ! i) \<le> FULL_TURN"
    using tot by simp_all
  let ?s = "startAngle (?segs ! i)" and ?e = "endAngle (?segs ! i)"
  have a: "a = ?s + u * (?e - ?s)"
    using assms(6) segs by simp
  have lo: "?s \<le> a"
    using b(2) assms(4) by (simp add: a)
  have "u * (?e - ?s) < 1 * (?e - ?s)"
    using b(2) assms(5) by (intro mult_strict_right_mono) simp_all
  then have hi: "a < ?e"
    by (simp add: a)
  have norm: "normalizeAngle a = a"
    using lo hi b by (intro normalizeAngle_id) simp_all
  show ?thesis
    using find_layout [OF assms(1,2) tot lo hi]
    by (simp add: resolveAngle_def norm segs)
qed

lemma rebuilt_widths_pos:
  assumes "list_all (\<lambda>e. 0 < eweight e) es" "es \<noteq> []"
  shows "list_all (\<lambda>w. 0 < w)
           (map (\<lambda>s. endAngle s - startAngle s) (segments (rebuild es w0)))"
proof -
  have tot: "0 < sum_list (map eweight es)"
    using assms(2,1) by (rule weights_sum_pos)
  show ?thesis
    using layout_bounds [OF _ assms(1) tot, of _ 0]
    by (auto simp: list_all_iff rebuild_def)
qed

lemma rebuilt_select:
  assumes "es \<noteq> []" "list_all (\<lambda>e. 0 < eweight e) es" "0 \<le> u" "u < 1"
    and "segments w = segments (rebuild es w0)"
  shows "\<exists>i < length es.
           weightedSelect (map (\<lambda>s. endAngle s - startAngle s) (segments w)) u = Inr i"
proof -
  let ?ws = "map (\<lambda>s. endAngle s - startAngle s) (segments w)"
  have len: "length ?ws = length es"
    using assms(5) by (simp add: rebuild_def length_layout)
  then have ne: "?ws \<noteq> []" using assms(1) by auto
  have "list_all (\<lambda>w. 0 < w) ?ws"
    using rebuilt_widths_pos [OF assms(2,1), of w0] assms(5) by simp
  from weightedSelect_total [OF ne this assms(3,4)]
  obtain i where i: "weightedSelect ?ws u = Inr i" by blast
  from weightedSelect_range [OF i] len have "i < length es" by simp
  with i show ?thesis by blast
qed

section \<open>Properties of the Animation Controller\<close>

text \<open>
  Claim C7.  \<open>start\<close> on a wheel without segments is a silent no-op: it returns no
  schedule and the controller is unchanged, so an \<open>Idle\<close> controller stays \<open>Idle\<close> and no
  notification is emitted.  The start handler of the page, on a wheel without segments
  and a state without active entries, does not reach \<open>start\<close>: state, run and
  notifications of the controller and both duration inputs stay as they were.
\<close>

theorem start_without_segments:
  "(\<not> hasSegments (wheel c) \<longrightarrow>
      start cfg u1 u2 now th dh c = (None, c)) \<and>
   (\<not> hasSegments (wheel (controller pg)) \<and> fst (getActiveEntries pf (shared pg)) = [] \<longrightarrow>
      phase (controller (startHandler pf cfg u1 u2 now pg)) = phase (controller pg) \<and>
      run (controller (startHandler pf cfg u1 u2 now pg)) = run (controller pg) \<and>
      notifications (controller (startHandler pf cfg u1 u2 now pg))
        = notifications (controller pg) \<and>
      \<not> hasSegments (wheel (controller (startHandler pf cfg u1 u2 now pg))) \<and>
      maxTime (startHandler pf cfg u1 u2 now pg) = maxTime pg \<and>
      decelTime (startHandler pf cfg u1 u2 now pg) = decelTime pg)"
  by (simp add: start_def startHandler_def hasSegments_def rebuild_def Let_def)

theorem start_without_segments_witness:
  "\<not> hasSegments (wheel emptyController) \<and>
   start exampleConfig (1 / 2) (1 / 2) 0 0 100 emptyController = (None, emptyController) \<and>
   phase emptyController = Idle \<and> notifications emptyController = [] \<and>
   fst (getActiveEntries (\<lambda>v. NaN) (shared emptyPage)) = [] \<and>
   phase (controller (startHandler (\<lambda>v. NaN) exampleConfig (1 / 2) (1 / 2) 0 emptyPage)) = Idle \<and>
   notifications (controller (startHandler (\<lambda>v. NaN) exampleConfig (1 / 2) (1 / 2) 0 emptyPage)) = []"
  using start_without_segments
    [of emptyController exampleConfig "1 / 2" "1 / 2" 0 0 100 emptyPage "\<lambda>v. NaN"]
  by (simp add: emptyController_def emptyPage_def emptyWheel_def hasSegments_def
        getActiveEntries_def initialState_def)

lemma winners_append: "winners (xs @ ys) = winners xs @ winners ys"
  by (induction xs rule: winners.induct) simp_all

lemma finalize_winner:
  "notifications (finalize r c) =
     notifications c @ [Winner (entry (segments (wheel c) ! targetIndex r))]"
  by (simp add: finalize_def Let_def split: option.splits)

lemma finalize_fields:
  "phase (finalize r c) = Settled" "run (finalize r c) = None"
  "segments (wheel (finalize r c)) = segments (wheel c)"
  "rotation (wheel (finalize r c)) = landingAngle r"
  by (simp_all add: finalize_def Let_def)

lemma beginDecel_fields:
  "phase (beginDecel cfg now d q r c) = Decelerating"
  "wheel (beginDecel cfg now d q r c) = wheel c"
  "winners (notifications (beginDecel cfg now d q r c)) = winners (notifications c)"
  "\<exists>r'. run (beginDecel cfg now d q r c) = Some r' \<and> targetIndex r' = targetIndex r \<and>
        landingAngle r' = landingAngle r"
  by (simp_all add: beginDecel_def winners_append)

lemma tick_committed:
  assumes "committed segs i landing ws c"
  shows "committed segs i landing ws (tick cfg now c)"
proof (cases "run c")
  case None
  then show ?thesis using assms by (simp add: tick_def)
next
  case (Some r)
  with assms have ph: "phase c = Spinning \<or> phase c = Decelerating"
    and r: "targetIndex r = i" "landingAngle r = landing"
    and ws: "winners (notifications c) = ws" and segs: "segments (wheel c) = segs"
    by (auto simp: committed_def split: if_splits)
  from ph show ?thesis
  proof
    assume sp: "phase c = Spinning"
    show ?thesis
    proof (cases "totalDuration r - decelDuration r \<le> now - startTime r")
      case True
      then have t: "tick cfg now c = beginDecel cfg now (decelDuration r) None r c"
        using Some sp by (simp add: tick_def)
      show ?thesis
        using beginDecel_fields [of cfg now "decelDuration r" None r c] r ws segs
        by (auto simp: t committed_def)
    next
      case False
      then show ?thesis
        using Some sp r ws segs by (simp add: tick_def committed_def)
    qed
  next
    assume de: "phase c = Decelerating"
    show ?thesis
    proof (cases "decelEnd r \<le> now")
      case True
      then have t: "tick cfg now c = finalize r c"
        using Some de by (simp add: tick_def)
      show ?thesis
        using r ws segs
        by (simp add: t committed_def finalize_fields finalize_winner winners_append)
    next
      case False
      then show ?thesis
        using Some de r ws segs by (simp add: tick_def committed_def)
    qed
  qed
qed

lemma requestDecel_committed:
  assumes "committed segs i landing ws c"
  shows "committed segs i landing ws (requestDecel cfg now h c)"
proof (cases "run c")
  case None
  then show ?thesis using assms by (simp add: requestDecel_def)
next
  case (Some r)
  show ?thesis
  proof (cases "phase c = Spinning")
    case True
    let ?d = "min (clampDuration cfg h) (totalDuration r)"
    have t: "requestDecel cfg now h c = beginDecel cfg now ?d (Some now) r c"
      using Some True by (simp add: requestDecel_def)
    from assms Some True have "targetIndex r = i" "landingAngle r = landing"
      "winners (notifications c) = ws" "segments (wheel c) = segs"
      by (auto simp: committed_def)
    then show ?thesis
      using beginDecel_fields [of cfg now ?d "Some now" r c]
      by (auto simp: t committed_def)
  next
    case False
    then show ?thesis using assms Some by (simp add: requestDecel_def)
  qed
qed

lemma step_committed:
  "committed segs i landing ws c \<Longrightarrow> committed segs i landing ws (step cfg ev c)"
  by (cases ev) (simp_all add: tick_committed requestDecel_committed)

lemma runEvents_committed:
  "committed segs i landing ws c \<Longrightarrow> committed segs i landing ws (runEvents cfg evs c)"
  unfolding runEvents_def
  by (induction evs arbitrary: c) (simp_all add: step_committed)

lemma start_committed:
  assumes "phase c = Idle \<or> phase c = Settled" "hasSegments (wheel c)"
    and "weightedSelect (map (\<lambda>s. endAngle s - startAngle s) (segments (wheel c))) u1 = Inr i"
  shows "start cfg u1 u2 now th dh c =
           (Some (normalizeDurations cfg th dh), snd (start cfg u1 u2 now th dh c)) \<and>
         committed (segments (wheel c)) i
           (startAngle (segments (wheel c) ! i)
              + u2 * (endAngle (segments (wheel c) ! i) - startAngle (segments (wheel c) ! i)))
           (winners (notifications c)) (snd (start cfg u1 u2 now th dh c))"
  using assms by (auto simp: start_def committed_def Let_def winners_append)

text \<open>
  Claim C6.  On a wheel that can be started, for every pair of duration hints and every
  configuration whose minimum is not above its maximum, \<open>start\<close> returns effective
  durations with the total and the deceleration both inside the configured bounds and
  the deceleration not above the total.  The call \<open>start(0, 100)\<close> is evaluated on the
  example wheel below.
\<close>

theorem start_clamps_durations:
  assumes "minDuration cfg \<le> maxDuration cfg"
    and "entries \<noteq> []" and "\<forall>e \<in> set entries. 0 < eweight e"
    and "0 \<le> u1" "u1 < 1"
    and "phase c = Idle \<or> phase c = Settled"
    and "segments (wheel c) = segments (rebuild entries w0)"
  shows "\<exists>sched. fst (start cfg u1 u2 now th dh c) = Some sched \<and>
           minDuration cfg \<le> total sched \<and> total sched \<le> maxDuration cfg \<and>
           minDuration cfg \<le> decel sched \<and> decel sched \<le> maxDuration cfg \<and>
           decel sched \<le> total sched"
proof -
  have pos: "list_all (\<lambda>e. 0 < eweight e) entries"
    using assms(3) by (simp add: list_all_iff)
  from rebuilt_select [OF assms(2) pos assms(4,5,7)]
  obtain i where
    sel: "weightedSelect (map (\<lambda>s. endAngle s - startAngle s) (segments (wheel c))) u1 = Inr i"
    by blast
  have "length (segments (wheel c)) = length entries"
    using assms(7) by (simp add: rebuild_def length_layout)
  with assms(2) have has: "hasSegments (wheel c)"
    by (auto simp: hasSegments_def)
  from start_committed [OF assms(6) has sel, of cfg u2 now th dh]
  have "fst (start cfg u1 u2 now th dh c) = Some (normalizeDurations cfg th dh)"
    by (metis fst_conv)
  moreover have "minDuration cfg \<le> total (normalizeDurations cfg th dh) \<and>
      total (normalizeDurations cfg th dh) \<le> maxDuration cfg \<and>
      minDuration cfg \<le> decel (normalizeDurations cfg th dh) \<and>
      decel (normalizeDurations cfg th dh) \<le> maxDuration cfg \<and>
      decel (normalizeDurations cfg th dh) \<le> total (normalizeDurations cfg th dh)"
    using assms(1) by (simp add: normalizeDurations_def clampDuration_def Let_def)
  ultimately show ?thesis by blast
qed

text \<open>
  Claim C1.  Take a wheel rebuilt from entries with positive weights, a controller that is
  \<open>Idle\<close> or \<open>Settled\<close>, and two draws of the random source in the unit interval.  Then
  \<open>start\<close> commits a target entry and returns a schedule, and after any sequence of ticks
  and stop requests, at any times and with any hints: no winner has been notified while
  the run is in progress, and a settled run has notified exactly the committed target
  entry, which is also the entry of the segment that the wheel resolves at the final
  rotation.
\<close>

theorem settled_winner_is_committed_target:
  assumes "entries \<noteq> []" and "\<forall>e \<in> set entries. 0 < eweight e"
    and "0 \<le> u1" "u1 < 1" "0 \<le> u2" "u2 < 1"
    and "phase c = Idle \<or> phase c = Settled"
    and "segments (wheel c) = segments (rebuild entries w0)"
  shows "\<exists>i < length entries.
           weightedSelect (map (\<lambda>s. endAngle s - startAngle s) (segments (wheel c))) u1 = Inr i \<and>
           fst (start cfg u1 u2 now th dh c) = Some (normalizeDurations cfg th dh) \<and>
           (let c' = runEvents cfg evs (snd (start cfg u1 u2 now th dh c)) in
              winners (notifications c') =
                winners (notifications c) @ (if phase c' = Settled then [entries ! i] else []) \<and>
              (phase c' = Settled \<longrightarrow>
                 resolveAngle (wheel c') (rotation (wheel c')) = Some (segments (wheel c) ! i) \<and>
                 entry (segments (wheel c) ! i) = entries ! i))"
proof -
  have pos: "list_all (\<lambda>e. 0 < eweight e) entries"
    using assms(2) by (simp add: list_all_iff)
  from rebuilt_select [OF assms(1) pos assms(3,4,8)]
  obtain i where i: "i < length entries"
    and sel: "weightedSelect (map (\<lambda>s. endAngle s - startAngle s) (segments (wheel c))) u1 = Inr i"
    by blast
  let ?segs = "segments (wheel c)"
  let ?landing = "startAngle (?segs ! i) + u2 * (endAngle (?segs ! i) - startAngle (?segs ! i))"
  let ?c1 = "snd (start cfg u1 u2 now th dh c)"
  let ?c' = "runEvents cfg evs ?c1"
  have "length ?segs = length entries"
    using assms(8) by (simp add: rebuild_def length_layout)
  with assms(1) have has: "hasSegments (wheel c)"
    by (auto simp: hasSegments_def)
  from start_committed [OF assms(7) has sel, of cfg u2 now th dh]
  have st: "fst (start cfg u1 u2 now th dh c) = Some (normalizeDurations cfg th dh)"
    and c1: "committed ?segs i ?landing (winners (notifications c)) ?c1"
    by (metis fst_conv, blast)
  have inv: "committed ?segs i ?landing (winners (notifications c)) ?c'"
    using c1 by (rule runEvents_committed)
  have ent: "entry (?segs ! i) = entries ! i"
    using i assms(8) by (simp add: rebuild_def entry_layout)
  have win: "winners (notifications ?c') =
      winners (notifications c) @ (if phase ?c' = Settled then [entries ! i] else [])"
    using inv ent by (auto simp: committed_def split: if_splits)
  have res: "resolveAngle (wheel ?c') (rotation (wheel ?c')) = Some (?segs ! i)"
    if "phase ?c' = Settled"
  proof -
    from inv that have segs: "segments (wheel ?c') = ?segs" and rot: "rotation (wheel ?c') = ?landing"
      by (auto simp: committed_def split: if_splits)
    have "resolveAngle (wheel ?c') ?landing = Some (segments (wheel ?c') ! i)"
      by (rule resolve_landing [OF i pos _ assms(5,6)]) (simp_all add: segs assms(8))
    then show ?thesis by (simp add: rot segs)
  qed
  show ?thesis
    using i sel st win res ent by (auto simp: Let_def)
qed

text \<open>Every started run can be brought to \<open>Settled\<close>: two ticks at the scheduled times do.\<close>

lemma run_completes:
  assumes "fst (start cfg u1 u2 now th dh c) = Some sched"
  shows "phase (runEvents cfg [Tick (now + total sched - decel sched), Tick (now + total sched)]
           (snd (start cfg u1 u2 now th dh c))) = Settled"
  using assms
  by (auto simp: start_def runEvents_def tick_def beginDecel_def finalize_def Let_def
      split: if_splits sum.splits)

section \<open>The example wheel, evaluated\<close>

lemma example_wheel:
  "rebuild exampleEntries emptyWheel =
     \<lparr>segments = [\<lparr>entry = \<lparr>ename = ascii ''a'', eweight = 1\<rparr>, startAngle = 0, endAngle = 90\<rparr>,
                  \<lparr>entry = \<lparr>ename = ascii ''b'', eweight = 3\<rparr>, startAngle = 90, endAngle = 360\<rparr>],
      rotation = 0\<rparr>"
  by (simp add: rebuild_def exampleEntries_def FULL_TURN_def)

lemma example_start:
  "start exampleConfig (1 / 2) (1 / 2) 0 0 100 idleController =
     (Some \<lparr>total = 1, decel = 1\<rparr>,
      \<lparr>phase = Spinning, wheel = rebuild exampleEntries emptyWheel,
       run = Some \<lparr>startTime = 0, startRotation = 0, totalDuration = 1, decelDuration = 1,
                   decelRequestedAt = None, targetIndex = 1, landingAngle = 225,
                   decelStart = 0, decelFrom = 0, decelDistance = 0, decelEnd = 0\<rparr>,
       notifications = [StateChange True True]\<rparr>)"
  by (simp add: start_def idleController_def example_wheel hasSegments_def weightedSelect_def
        normalizeDurations_def clampDuration_def exampleConfig_def Let_def)

lemma example_run:
  "runEvents exampleConfig exampleEvents
     (snd (start exampleConfig (1 / 2) (1 / 2) 0 0 100 idleController)) =
     \<lparr>phase = Settled,
      wheel = (rebuild exampleEntries emptyWheel)\<lparr>rotation := 225\<rparr>,
      run = None,
      notifications = [StateChange True True, StateChange True False,
                       Winner \<lparr>ename = ascii ''b'', eweight = 3\<rparr>]\<rparr>"
  by code_simp

theorem start_clamps_durations_witness:
  "fst (start exampleConfig (1 / 2) (1 / 2) 0 0 100 idleController)
     = Some \<lparr>total = 1, decel = 1\<rparr> \<and>
   minDuration exampleConfig = 1 \<and> maxDuration exampleConfig = 30"
proof -
  have "minDuration exampleConfig \<le> maxDuration exampleConfig"
    by (simp add: exampleConfig_def)
  moreover have "exampleEntries \<noteq> []" "\<forall>e \<in> set exampleEntries. 0 < eweight e"
    by (simp_all add: exampleEntries_def)
  moreover have "(0::real) \<le> 1 / 2" "(1::real) / 2 < 1" by simp_all
  moreover have "phase idleController = Idle \<or> phase idleController = Settled"
    "segments (wheel idleController) = segments (rebuild exampleEntries emptyWheel)"
    by (simp_all add: idleController_def)
  ultimately obtain sched where
    "fst (start exampleConfig (1 / 2) (1 / 2) 0 0 100 idleController) = Some sched"
    using start_clamps_durations
      [of exampleConfig exampleEntries "1 / 2" idleController emptyWheel "1 / 2" 0 0 100]
    by blast
  moreover have "fst (start exampleConfig (1 / 2) (1 / 2) 0 0 100 idleController)
     = Some \<lparr>total = 1, decel = 1\<rparr>"
    by (simp add: example_start)
  ultimately show ?thesis
    by (simp add: exampleConfig_def)
qed

theorem settled_winner_is_committed_target_witness:
  "phase (runEvents exampleConfig exampleEvents
            (snd (start exampleConfig (1 / 2) (1 / 2) 0 0 100 idleController))) = Settled \<and>
   winners (notifications (runEvents exampleConfig exampleEvents
            (snd (start exampleConfig (1 / 2) (1 / 2) 0 0 100 idleController))))
     = [exampleEntries ! 1] \<and>
   weightedSelect (map (\<lambda>s. endAngle s - startAngle s) (segments (wheel idleController))) (1 / 2)
     = Inr 1"
proof -
  have sel: "weightedSelect
      (map (\<lambda>s. endAngle s - startAngle s) (segments (wheel idleController))) (1 / 2) = Inr 1"
    by (simp add: idleController_def example_wheel weightedSelect_def)
  have ph: "phase (runEvents exampleConfig exampleEvents
            (snd (start exampleConfig (1 / 2) (1 / 2) 0 0 100 idleController))) = Settled"
    by (simp add: example_run)
  have "exampleEntries \<noteq> []" "\<forall>e \<in> set exampleEntries. 0 < eweight e"
    by (simp_all add: exampleEntries_def)
  moreover have "(0::real) \<le> 1 / 2" "(1::real) / 2 < 1" by simp_all
  moreover have "phase idleController = Idle \<or> phase idleController = Settled"
    "segments (wheel idleController) = segments (rebuild exampleEntries emptyWheel)"
    by (simp_all add: idleController_def)
  ultimately obtain i where
    "weightedSelect (map (\<lambda>s. endAngle s - startAngle s) (segments (wheel idleController)))
       (1 / 2) = Inr i"
    "winners (notifications (runEvents exampleConfig exampleEvents
        (snd (start exampleConfig (1 / 2) (1 / 2) 0 0 100 idleController)))) =
      winners (notifications idleController) @
        (if phase (runEvents exampleConfig exampleEvents
            (snd (start exampleConfig (1 / 2) (1 / 2) 0 0 100 idleController))) = Settled
         then [exampleEntries ! i] else [])"
    using settled_winner_is_committed_target
      [of exampleEntries "1 / 2" "1 / 2" idleController emptyWheel exampleConfig 0 0 100
          exampleEvents]
    by (auto simp: Let_def)
  with sel ph show ?thesis
    by (simp add: idleController_def)
qed

end
